theory Spec2Isabelle
  imports Main
begin

section \<open>Python primitives used by the parser\<close>

text \<open>
  Python 2 byte strings are modelled as \<open>string\<close> (lists of 8-bit characters).
  Exceptions of the source are values of \<open>error\<close>; a function that may raise
  returns \<open>error + 'a\<close> with \<open>Inl\<close> for the exception.
\<close>

datatype error = IndexError | UnboundLocalError | AttributeError

text \<open>\<open>xs[i]\<close>: negative indices count from the end, anything else out of range raises.\<close>

definition py_index :: "'a list \<Rightarrow> int \<Rightarrow> error + 'a" where
  "py_index xs i =
     (let n = int (length xs) in
      if 0 \<le> i \<and> i < n then Inr (xs ! nat i)
      else if - n \<le> i \<and> i < 0 then Inr (xs ! nat (n + i))
      else Inl IndexError)"

text \<open>\<open>sep in s\<close>: the separator occurs somewhere in the text.\<close>

fun occurs :: "string \<Rightarrow> string \<Rightarrow> bool" where
  "occurs sep [] = (sep = [])"
| "occurs sep (c # cs) = (take (length sep) (c # cs) = sep \<or> occurs sep cs)"

text \<open>
  \<open>s.split(sep)\<close> for a non-empty separator: the text is cut at the non-overlapping
  occurrences of \<open>sep\<close>, found from left to right. The result always has at least one
  piece, so the \<open>[]\<close> branch of the case below is never taken. (Python raises ValueError
  on an empty separator; the source only splits on non-empty literals.)
\<close>

fun py_split :: "string \<Rightarrow> string \<Rightarrow> string list" where
  "py_split sep [] = [[]]"
| "py_split sep (c # cs) =
     (if take (length sep) (c # cs) = sep
      then [] # py_split sep (drop (length sep - 1) cs)
      else (case py_split sep cs of [] \<Rightarrow> [[c]] | p # ps \<Rightarrow> (c # p) # ps))"

text \<open>\<open>s.replace(old, new)\<close> for a non-empty \<open>old\<close>.\<close>

fun py_replace :: "string \<Rightarrow> string \<Rightarrow> string \<Rightarrow> string" where
  "py_replace old new [] = []"
| "py_replace old new (c # cs) =
     (if take (length old) (c # cs) = old
      then new @ py_replace old new (drop (length old - 1) cs)
      else c # py_replace old new cs)"

text \<open>\<open>s.strip()\<close> removes leading and trailing ASCII whitespace.\<close>

definition py_isspace :: "char \<Rightarrow> bool" where
  "py_isspace c = (c \<in> set [CHR '' '', CHR 0x09, CHR 0x0A, CHR 0x0B, CHR 0x0C, CHR 0x0D])"

definition strip :: "string \<Rightarrow> string" where
  "strip s = rev (dropWhile py_isspace (rev (dropWhile py_isspace s)))"

text \<open>\<open>s.lower()\<close> on a byte string maps the ASCII capitals and nothing else.\<close>

definition lower_char :: "char \<Rightarrow> char" where
  "lower_char c =
     (case map_of (zip ''ABCDEFGHIJKLMNOPQRSTUVWXYZ'' ''abcdefghijklmnopqrstuvwxyz'') c of
        None \<Rightarrow> c | Some d \<Rightarrow> d)"

definition lower :: "string \<Rightarrow> string" where
  "lower s = map lower_char s"

text \<open>\<open>s.replace(a, b)\<close> where both are single characters.\<close>

definition replace_char :: "char \<Rightarrow> char \<Rightarrow> string \<Rightarrow> string" where
  "replace_char a b s = map (\<lambda>c. if c = a then b else c) s"

section \<open>The world state (class State)\<close>

text \<open>
  Modelled from the spec: class \<open>State\<close> (module State, imported by OutputParser.py) is
  not among the sources. The spec describes it as a set of propositions with a size, an
  insert for one proposition and a full-set accessor. Its closed-world completion
  \<open>makeCWAExplicit\<close> is left as a parameter of the patcher, since the spec leaves the
  encoding of negated facts to that class.
\<close>

datatype State = State (getAllProps: "string set")

text \<open>Modelled from the spec: the constructor \<open>State()\<close> gives a state without propositions.\<close>

definition State_new :: State where
  "State_new = State {}"

text \<open>Modelled from the spec: \<open>addProposition\<close> inserts one proposition into the set.\<close>

definition addProposition :: "string \<Rightarrow> State \<Rightarrow> State" where
  "addProposition p s = State (insert p (getAllProps s))"

text \<open>Modelled from the spec: \<open>size\<close> is the number of propositions the state holds.\<close>

definition size_State :: "State \<Rightarrow> nat" where
  "size_State s = card (getAllProps s)"

section \<open>OutputParser.py\<close>

definition stateListDelimiter :: string where
  "stateListDelimiter = ''*** States ***''"

definition stateDelimiter :: string where
  "stateDelimiter = ''State''"

text \<open>
  \<open>propPattern = re.compile("\(.*\)\Z")\<close>, used with \<open>match\<close>: the text starts with an
  opening parenthesis, ends with a closing one, and has no line break in between
  (\<open>.\<close> matches every character but the line feed).
\<close>

definition propPattern_match :: "string \<Rightarrow> bool" where
  "propPattern_match s =
     (case s of [] \<Rightarrow> False
      | c # r \<Rightarrow> c = CHR ''('' \<and> r \<noteq> [] \<and> last r = CHR '')'' \<and> CHR 0x0A \<notin> set (butlast r))"

text \<open>
  The file system is a map from file names to contents. \<open>tryIO\<close> is only ever called
  with mode \<open>"read"\<close>. When the file cannot be opened the handler calls \<open>sys.exit\<close>, and
  the \<open>finally\<close> block then closes a handle that was never bound, so the exception that
  leaves \<open>tryIO\<close> is UnboundLocalError.
\<close>

type_synonym files = "string \<Rightarrow> string option"

definition tryIO :: "files \<Rightarrow> string \<Rightarrow> error + string" where
  "tryIO fs fname = (case fs fname of None \<Rightarrow> Inl UnboundLocalError | Some strBuf \<Rightarrow> Inr strBuf)"

record OutputParser =
  fname :: string
  stateList :: "State list"
  propSet :: "string set"

text \<open>The normalisation of one raw line in \<open>getStateFromStr\<close>.\<close>

definition normalize :: "string \<Rightarrow> string" where
  "normalize rawPropositionStr =
     (let propositionStr =
        lower (replace_char CHR '')'' CHR '' '' (replace_char CHR ''('' CHR '' '' (strip rawPropositionStr)))
      in ''('' @ strip propositionStr @ '')'')"

text \<open>
  The loop of \<open>getStateFromStr\<close> over the lines; the second component collects the lines
  printed by the \<open>else\<close> branch.
\<close>

fun getStateFromStr_loop :: "string list \<Rightarrow> State \<times> string list \<Rightarrow> State \<times> string list" where
  "getStateFromStr_loop [] acc = acc"
| "getStateFromStr_loop (rawPropositionStr # rest) (s, out) =
     (let propositionStr = normalize rawPropositionStr in
      if propositionStr \<noteq> ''()'' then
        if propPattern_match propositionStr
        then getStateFromStr_loop rest (addProposition propositionStr s, out)
        else getStateFromStr_loop rest (s, out @ [''not a proposition: '' @ propositionStr])
      else getStateFromStr_loop rest (s, out))"

definition getStateFromStr :: "string \<Rightarrow> State \<times> string list" where
  "getStateFromStr stateStr = getStateFromStr_loop (py_split [CHR 0x0A] stateStr) (State_new, [])"

text \<open>The loop of \<open>parseFFOutput\<close> over the pieces between state delimiters.\<close>

fun parseFFOutput_loop :: "string list \<Rightarrow> State list \<Rightarrow> State list" where
  "parseFFOutput_loop [] stateList' = stateList'"
| "parseFFOutput_loop (stateStr # rest) stateList' =
     (let s = fst (getStateFromStr stateStr) in
      if size_State s > 0 then parseFFOutput_loop rest (stateList' @ [s])
      else parseFFOutput_loop rest stateList')"

text \<open>
  \<open>parseFFOutput\<close> returns the parser with its \<open>stateList\<close> replaced; the list is also the
  value the method returns. \<open>relevantStr\<close> is bound by neither branch when both the bound
  file name and the literal text are empty, and the loop header then raises
  UnboundLocalError.
\<close>

definition parseFFOutput :: "files \<Rightarrow> OutputParser \<Rightarrow> string \<Rightarrow> error + OutputParser" where
  "parseFFOutput fs self fileStr =
     (case (if fname self \<noteq> [] then
              (case tryIO fs (fname self) of
                 Inl e \<Rightarrow> Inl e
               | Inr fstr \<Rightarrow>
                   (case py_index (py_split stateListDelimiter fstr) 1 of
                      Inl e \<Rightarrow> Inl e
                    | Inr relevantStr \<Rightarrow> Inr (Some relevantStr)))
            else Inr None) of
        Inl e \<Rightarrow> Inl e
      | Inr fromFile \<Rightarrow>
          (case (if fileStr \<noteq> [] then Some fileStr else fromFile) of
             None \<Rightarrow> Inl UnboundLocalError
           | Some relevantStr \<Rightarrow>
               Inr (self\<lparr>stateList := parseFFOutput_loop (py_split stateDelimiter relevantStr) []\<rparr>)))"

text \<open>The constructor parses the bound file when a name is given.\<close>

definition OutputParser_init :: "files \<Rightarrow> string \<Rightarrow> error + OutputParser" where
  "OutputParser_init fs fname' =
     (let self = \<lparr>fname = fname', stateList = [], propSet = {}\<rparr> in
      if fname' \<noteq> [] then parseFFOutput fs self [] else Inr self)"

text \<open>
  The loop of \<open>getPropSet\<close>: \<open>stateProps\<close> is the previous state's set, \<open>sProps\<close> the union
  so far; \<open>diff\<close> is computed and never used.
\<close>

fun getPropSet_loop :: "State list \<Rightarrow> string set \<Rightarrow> string set \<Rightarrow> string set" where
  "getPropSet_loop [] stateProps sProps = sProps"
| "getPropSet_loop (state # rest) stateProps sProps =
     (let prevStateProps = stateProps;
          stateProps' = getAllProps state;
          diff = (prevStateProps - stateProps') \<union> (stateProps' - prevStateProps)
      in getPropSet_loop rest stateProps' (sProps \<union> stateProps'))"

definition getPropSet :: "OutputParser \<Rightarrow> error + string set" where
  "getPropSet self =
     (case py_index (stateList self) 0 of
        Inl e \<Rightarrow> Inl e
      | Inr s0 \<Rightarrow> Inr (getPropSet_loop (stateList self) (getAllProps s0) (getAllProps s0)))"

text \<open>
  \<open>getStateByIndex\<close> returns either a state or, after printing
  \<open>"Error: state index out of range"\<close>, the integer \<open>-1\<close>.
\<close>

datatype pyval = StateObj State | IntObj int

definition getStateByIndex :: "OutputParser \<Rightarrow> int \<Rightarrow> error + pyval" where
  "getStateByIndex self index =
     (if int (length (stateList self)) > index + 1
      then (case py_index (stateList self) index of Inl e \<Rightarrow> Inl e | Inr s \<Rightarrow> Inr (StateObj s))
      else Inr (IntObj (- 1)))"

definition getFFPlan :: "files \<Rightarrow> OutputParser \<Rightarrow> error + string" where
  "getFFPlan fs self =
     (case tryIO fs (fname self) of
        Inl e \<Rightarrow> Inl e
      | Inr ffstr \<Rightarrow>
          (case py_index (py_split ''found legal plan as follows'' ffstr) 1 of
             Inl e \<Rightarrow> Inl e
           | Inr afterMarker \<Rightarrow>
               (case py_index (py_split ''time'' afterMarker) 0 of
                  Inl e \<Rightarrow> Inl e
                | Inr ffPlanStr \<Rightarrow> Inr (py_replace ''step'' '''' ffPlanStr))))"

section \<open>PDDLPatcher.py\<close>

text \<open>
  Modelled from the spec: class \<open>InitFileMgr\<close> (module InitFileMgr, imported by
  PDDLPatcher.py) is not among the sources. The patcher only calls three of its
  operations, each changing the manager's state \<open>'m\<close>; they are parameters of the
  patcher, assumed not to raise.
\<close>

record 'm InitFileMgr =
  rollbackTo :: "int \<Rightarrow> 'm \<Rightarrow> 'm"
  patchInitState :: "State \<Rightarrow> 'm \<Rightarrow> 'm"
  purgeFactsWithSymbol :: "string \<Rightarrow> 'm \<Rightarrow> 'm"

text \<open>
  A patcher method either returns, leaving the manager in a new state, or an exception
  leaves it, with the manager in the state reached by then.
\<close>

datatype 'm result = Ok 'm | Raised error 'm

text \<open>
  \<open>deltaState.makeCWAExplicit(propSet)\<close>: the receiver is whatever \<open>getStateByIndex\<close>
  returned; an integer has no such method. \<open>cwa\<close> is the completion of class \<open>State\<close>.
\<close>

definition call_makeCWAExplicit ::
  "(State \<Rightarrow> string set \<Rightarrow> State) \<Rightarrow> pyval \<Rightarrow> string set \<Rightarrow> error + State" where
  "call_makeCWAExplicit cwa deltaState propSet' =
     (case deltaState of StateObj s \<Rightarrow> Inr (cwa s propSet') | IntObj i \<Rightarrow> Inl AttributeError)"

definition patchWithFFOutput ::
  "(State \<Rightarrow> string set \<Rightarrow> State) \<Rightarrow> 'm InitFileMgr \<Rightarrow> files \<Rightarrow> string \<Rightarrow> int \<Rightarrow> 'm \<Rightarrow> 'm result" where
  "patchWithFFOutput cwa initFileMgr fs ffOutputFile stateNum m =
     (case OutputParser_init fs ffOutputFile of
        Inl e \<Rightarrow> Raised e m
      | Inr op \<Rightarrow>
          (case getPropSet op of
             Inl e \<Rightarrow> Raised e m
           | Inr propSet' \<Rightarrow>
               (case getStateByIndex op stateNum of
                  Inl e \<Rightarrow> Raised e m
                | Inr deltaState \<Rightarrow>
                    (case call_makeCWAExplicit cwa deltaState propSet' of
                       Inl e \<Rightarrow> Raised e m
                     | Inr completed \<Rightarrow> Ok (patchInitState initFileMgr completed m)))))"

definition patchWithProps :: "'m InitFileMgr \<Rightarrow> string list \<Rightarrow> 'm \<Rightarrow> 'm" where
  "patchWithProps initFileMgr inputFromContinuous m =
     (let deltaState = foldl (\<lambda>d x. addProposition x d) State_new inputFromContinuous
      in patchInitState initFileMgr deltaState m)"

definition patchStateNumWithProps ::
  "(State \<Rightarrow> string set \<Rightarrow> State) \<Rightarrow> 'm InitFileMgr \<Rightarrow> files \<Rightarrow> int \<Rightarrow> string \<Rightarrow> string list \<Rightarrow> 'm
     \<Rightarrow> 'm result" where
  "patchStateNumWithProps cwa initFileMgr fs stateNum ffOutputFile factsFromContinuous m =
     (case patchWithFFOutput cwa initFileMgr fs ffOutputFile stateNum (rollbackTo initFileMgr 0 m) of
        Raised e m' \<Rightarrow> Raised e m'
      | Ok m' \<Rightarrow> Ok (patchWithProps initFileMgr factsFromContinuous m'))"


subsection \<open>A manager that records the calls it receives\<close>

datatype mgr_call = RollbackTo int | PatchInitState State | PurgeFactsWithSymbol string

definition recorder :: "mgr_call list InitFileMgr" where
  "recorder =
     \<lparr>rollbackTo = (\<lambda>n calls. calls @ [RollbackTo n]),
      patchInitState = (\<lambda>d calls. calls @ [PatchInitState d]),
      purgeFactsWithSymbol = (\<lambda>sym calls. calls @ [PurgeFactsWithSymbol sym])\<rparr>"

subsection \<open>The manager and the completion as the spec describes them\<close>





text \<open>
  Modelled from the spec: closed-world completion adds, for every proposition of the
  universe that the state does not hold, its negated form; the encoding \<open>neg\<close> of a
  negated fact belongs to class \<open>State\<close> and stays a parameter.
\<close>

definition makeCWAExplicit :: "(string \<Rightarrow> string) \<Rightarrow> State \<Rightarrow> string set \<Rightarrow> State" where
  "makeCWAExplicit neg s universe = State (getAllProps s \<union> neg ` (universe - getAllProps s))"

text \<open>
  Modelled from the spec: one possible encoding of a negated fact, used to run the
  patcher on the example inputs; no statement below depends on its shape.
\<close>

definition negated :: "string \<Rightarrow> string" where
  "negated p = ''(not '' @ p @ '')''"

section \<open>The layout of a planner trace file\<close>

text \<open>
  The input format of the spec: some text, the state-list delimiter, and then one section
  per state, each opened by the state delimiter on a line of its own and holding one
  proposition per line.
\<close>

definition section_body :: "string list \<Rightarrow> string" where
  "section_body ls = [CHR 0x0A] @ concat (map (\<lambda>l. l @ [CHR 0x0A]) ls)"

definition section_text :: "string list \<Rightarrow> string" where
  "section_text ls = stateDelimiter @ section_body ls"

definition trace_text :: "string \<Rightarrow> string list list \<Rightarrow> string" where
  "trace_text pre secs = pre @ stateListDelimiter @ [CHR 0x0A] @ concat (map section_text secs)"

text \<open>
  A line that the parser keeps whole holds no line break and no occurrence of the state
  delimiter: the file is cut at every \<open>State\<close>, also inside a line. This is narrower
  than a well-formed proposition line of the spec, which may hold the delimiter.
\<close>

definition whole_line :: "string \<Rightarrow> bool" where
  "whole_line l = (CHR 0x0A \<notin> set l \<and> \<not> occurs stateDelimiter l)"

text \<open>
  The normalisation in the spec's words: trim the line, replace the parenthesis
  characters by spaces, lower-case, trim again and wrap the result in one pair of
  parentheses. Lower-casing is written on the character codes: the codes 65 to 90 of the
  ASCII capitals move up by 32.
\<close>

definition spec_lower_char :: "char \<Rightarrow> char" where
  "spec_lower_char c =
     (if 65 \<le> (of_char c :: nat) \<and> (of_char c :: nat) \<le> 90 then char_of ((of_char c :: nat) + 32) else c)"

definition spec_normalize :: "string \<Rightarrow> string" where
  "spec_normalize l =
     ''('' @ strip (map spec_lower_char
                    (map (\<lambda>c. if c = CHR ''('' \<or> c = CHR '')'' then CHR '' '' else c) (strip l))) @ '')''"

text \<open>A section of whole lines, at least one of them not blank.\<close>

definition whole_section :: "string list \<Rightarrow> bool" where
  "whole_section ls = (list_all whole_line ls \<and> list_ex (\<lambda>l. spec_normalize l \<noteq> ''()'') ls)"

text \<open>The propositions of a section: its normalised lines, blank lines left out.\<close>

definition section_props :: "string list \<Rightarrow> string set" where
  "section_props ls = spec_normalize ` set ls - {''()''}"

section \<open>Example inputs\<close>

text \<open>
  The trace of the spec's example, and a small file system holding it together with a
  trace without states, a text without any marker, a trace with the state delimiter
  inside a proposition line and a planner solution.
\<close>

definition example_trace :: string where
  "example_trace = ''*** States ***'' @ [CHR 0x0A] @ ''State'' @ [CHR 0x0A] @ ''(at a)'' @ [CHR 0x0A]
     @ ''(on b c)'' @ [CHR 0x0A] @ ''State'' @ [CHR 0x0A] @ ''(at a)'' @ [CHR 0x0A]"

definition example_files :: files where
  "example_files f =
     (if f = ''trace'' then Some example_trace
      else if f = ''empty'' then Some (''*** States ***'' @ [CHR 0x0A])
      else if f = ''noise'' then Some ''no states here''
      else if f = ''instate'' then Some (''*** States ***'' @ [CHR 0x0A] @ ''State'' @ [CHR 0x0A]
             @ ''(inState r1)'' @ [CHR 0x0A])
      else if f = ''plan'' then Some (''ff: found legal plan as follows'' @ [CHR 0x0A] @ ''step    0: PICKUP A''
             @ [CHR 0x0A] @ ''        1: STACK A B'' @ [CHR 0x0A] @ ''time spent:    0.00 seconds'')
      else None)"

section \<open>Facts about the string primitives\<close>

lemma py_split_not_Nil: "py_split sep s \<noteq> []"
  by (induction sep s rule: py_split.induct) (auto split: list.splits)

lemma occurs_iff: "occurs sep s \<longleftrightarrow> (\<exists>p q. s = p @ sep @ q)"
proof (induction s)
  case Nil
  show ?case by auto
next
  case (Cons c cs)
  show ?case
  proof
    assume "occurs sep (c # cs)"
    then consider "take (length sep) (c # cs) = sep" | "occurs sep cs" by auto
    then show "\<exists>p q. c # cs = p @ sep @ q"
    proof cases
      case 1
      then have "c # cs = [] @ sep @ drop (length sep) (c # cs)"
        by (metis append_Nil append_take_drop_id)
      then show ?thesis by blast
    next
      case 2
      then obtain p q where "cs = p @ sep @ q" using Cons.IH by blast
      then have "c # cs = (c # p) @ sep @ q" by simp
      then show ?thesis by blast
    qed
  next
    assume "\<exists>p q. c # cs = p @ sep @ q"
    then obtain p q where pq: "c # cs = p @ sep @ q" by blast
    show "occurs sep (c # cs)"
    proof (cases p)
      case Nil
      then have "take (length sep) (c # cs) = sep" using pq by simp
      then show ?thesis by simp
    next
      case (Cons x p')
      then have "cs = p' @ sep @ q" using pq by simp
      then have "occurs sep cs" using Cons.IH by blast
      then show ?thesis by simp
    qed
  qed
qed

lemma py_split_no_occurrence: "sep \<noteq> [] \<Longrightarrow> \<not> occurs sep s \<Longrightarrow> py_split sep s = [s]"
  by (induction s) (auto split: list.splits)

lemma py_split_occurs_length: "sep \<noteq> [] \<Longrightarrow> occurs sep s \<longleftrightarrow> 2 \<le> length (py_split sep s)"
proof (induction s)
  case Nil
  then show ?case by simp
next
  case (Cons c cs)
  show ?case
  proof (cases "take (length sep) (c # cs) = sep")
    case True
    then show ?thesis using py_split_not_Nil[of sep "drop (length sep - 1) cs"]
      by (cases "py_split sep (drop (length sep - 1) cs)") auto
  next
    case False
    then show ?thesis using Cons by (auto split: list.splits)
  qed
qed

lemma take_sep_append:
  assumes "sep \<noteq> []" "a \<noteq> []"
  shows "take (length sep) (a @ sep @ rest) = take (length sep) (a @ butlast sep)"
proof -
  define ab where "ab = a @ butlast sep"
  have eq: "a @ sep @ rest = ab @ (last sep # rest)"
    unfolding ab_def using assms(1) by (metis append.assoc append_Cons append_Nil append_butlast_last_id)
  have len: "length sep \<le> length ab"
    unfolding ab_def using assms by (cases a) auto
  have "take (length sep) (a @ sep @ rest) = take (length sep) (ab @ (last sep # rest))"
    by (simp only: eq)
  also have "\<dots> = take (length sep) ab"
    using len by simp
  finally show ?thesis by (simp only: ab_def)
qed

lemma py_split_first:
  "sep \<noteq> [] \<Longrightarrow> \<not> occurs sep (a @ butlast sep) \<Longrightarrow> py_split sep (a @ sep @ rest) = a # py_split sep rest"
proof (induction a)
  case Nil
  then show ?case
    by (cases sep) auto
next
  case (Cons c a)
  have no: "take (length sep) ((c # a) @ butlast sep) \<noteq> sep" and rec: "\<not> occurs sep (a @ butlast sep)"
    using Cons.prems(2) by auto
  have "take (length sep) ((c # a) @ sep @ rest) \<noteq> sep"
    using no take_sep_append[OF Cons.prems(1), of "c # a" rest] by simp
  then show ?case using Cons.IH[OF Cons.prems(1) rec] by simp
qed

lemma occurs_single: "occurs [c] s \<longleftrightarrow> c \<in> set s"
  by (induction s) auto

lemma py_split_single_pieces: "p \<in> set (py_split [c] s) \<Longrightarrow> c \<notin> set p"
proof (induction s arbitrary: p)
  case Nil
  then show ?case by simp
next
  case (Cons x xs)
  show ?case
  proof (cases "x = c")
    case True
    then show ?thesis using Cons by auto
  next
    case False
    then show ?thesis using Cons py_split_not_Nil[of "[c]" xs]
      by (cases "py_split [c] xs") auto
  qed
qed

lemma set_strip: "set (strip s) \<subseteq> set s"
proof -
  have "set (strip s) \<subseteq> set (dropWhile py_isspace s)"
    unfolding strip_def by (metis set_rev set_dropWhileD subsetI)
  then show ?thesis by (meson set_dropWhileD subsetI subset_trans in_mono)
qed

lemma lower_char_newline: "lower_char c = CHR 0x0A \<Longrightarrow> c = CHR 0x0A"
  by (simp add: lower_char_def split: if_splits)

lemma py_index_1: "py_index xs 1 = (if 2 \<le> length xs then Inr (xs ! 1) else Inl IndexError)"
  by (auto simp: py_index_def Let_def)

lemma py_index_0_Cons: "py_index (x # xs) 0 = Inr x"
  by (simp add: py_index_def)

lemma py_index_0_split: "py_index (py_split sep s) 0 = Inr (hd (py_split sep s))"
  using py_split_not_Nil[of sep s] by (cases "py_split sep s") (auto simp: py_index_def Let_def)

lemma py_split_after_first:
  assumes "sep \<noteq> []" "\<not> occurs sep (a @ butlast sep)"
  shows "py_index (py_split sep (a @ sep @ rest)) 1 = Inr (hd (py_split sep rest))"
proof -
  have "py_split sep (a @ sep @ rest) = a # py_split sep rest"
    using assms by (rule py_split_first)
  then show ?thesis
    using py_split_not_Nil[of sep rest] by (cases "py_split sep rest") (auto simp: py_index_1)
qed

lemma py_split_absent:
  "sep \<noteq> [] \<Longrightarrow> \<not> occurs sep s \<Longrightarrow> py_index (py_split sep s) 1 = Inl IndexError"
  by (simp add: py_split_no_occurrence py_index_1)

lemma py_split_present:
  "sep \<noteq> [] \<Longrightarrow> occurs sep s \<Longrightarrow> py_index (py_split sep s) 1 = Inr (py_split sep s ! 1)"
  using py_split_occurs_length[of sep s] by (simp add: py_index_1)

lemma occurs_appendI: "occurs d a \<Longrightarrow> occurs d (a @ x)"
proof -
  assume "occurs d a"
  then obtain p q where "a = p @ d @ q" using occurs_iff by blast
  then have "a @ x = p @ d @ (q @ x)" by simp
  then show ?thesis using occurs_iff by blast
qed

lemma occurs_sub: "occurs (u @ v @ w) s \<Longrightarrow> occurs v s"
proof -
  assume "occurs (u @ v @ w) s"
  then obtain p q where "s = p @ (u @ v @ w) @ q" using occurs_iff by blast
  then have "s = (p @ u) @ v @ (w @ q)" by simp
  then show ?thesis using occurs_iff by blast
qed

lemma occurs_across_char:
  "c \<notin> set d \<Longrightarrow> occurs d (a @ c # b) \<Longrightarrow> occurs d a \<or> occurs d b"
proof (induction a)
  case Nil
  then show ?case by (cases d) auto
next
  case (Cons x a)
  define xa where "xa = x # a"
  from Cons.prems(2) consider "take (length d) (xa @ c # b) = d" | "occurs d (a @ c # b)"
    by (auto simp: xa_def)
  then show ?case
  proof cases
    case 1
    show ?thesis
    proof (cases "length d \<le> length xa")
      case True
      then have "take (length d) xa = d" using 1 by simp
      then show ?thesis by (simp add: xa_def)
    next
      case False
      then obtain k where k: "length d - length xa = Suc k"
        by (cases "length d - length xa") auto
      have "take (length d) (xa @ c # b) = xa @ c # take k b"
        using k by simp
      then have "c \<in> set d" using 1 by (metis in_set_conv_decomp)
      then show ?thesis using Cons.prems(1) by simp
    qed
  next
    case 2
    then show ?thesis using Cons.IH[OF Cons.prems(1)] by auto
  qed
qed

lemma occurs_lines:
  "c \<notin> set d \<Longrightarrow> occurs d (concat (map (\<lambda>l. l @ [c]) ls) @ t) \<Longrightarrow>
   (\<exists>l\<in>set ls. occurs d l) \<or> occurs d t"
proof (induction ls)
  case Nil
  then show ?case by simp
next
  case (Cons l ls)
  have "occurs d (l @ c # (concat (map (\<lambda>l. l @ [c]) ls) @ t))"
    using Cons.prems(2) by simp
  then have "occurs d l \<or> occurs d (concat (map (\<lambda>l. l @ [c]) ls) @ t)"
    using occurs_across_char[OF Cons.prems(1)] by blast
  then show ?case using Cons.IH[OF Cons.prems(1)] by auto
qed

lemma py_split_lines:
  "\<forall>l\<in>set ls. c \<notin> set l \<Longrightarrow>
   py_split [c] (concat (map (\<lambda>l. l @ [c]) ls) @ t) = ls @ py_split [c] t"
proof (induction ls)
  case Nil
  then show ?case by simp
next
  case (Cons l ls)
  have "\<not> occurs [c] (l @ butlast [c])" using Cons.prems by (simp add: occurs_single)
  then have "py_split [c] (l @ [c] @ (concat (map (\<lambda>l. l @ [c]) ls) @ t))
               = l # py_split [c] (concat (map (\<lambda>l. l @ [c]) ls) @ t)"
    by (intro py_split_first) simp_all
  then show ?case using Cons by simp
qed

section \<open>Facts about the parser\<close>

lemma lower_char_capitals:
  "\<forall>c\<in>set ''ABCDEFGHIJKLMNOPQRSTUVWXYZ''. lower_char c = spec_lower_char c"
  by code_simp

lemma capital_codes:
  "\<forall>n\<in>set [65..<91]. char_of (n::nat) \<in> set ''ABCDEFGHIJKLMNOPQRSTUVWXYZ''"
  by code_simp

lemma lower_char_spec: "lower_char c = spec_lower_char c"
proof (cases "c \<in> set ''ABCDEFGHIJKLMNOPQRSTUVWXYZ''")
  case True
  then show ?thesis using lower_char_capitals by blast
next
  case False
  have "map_of (zip ''ABCDEFGHIJKLMNOPQRSTUVWXYZ'' ''abcdefghijklmnopqrstuvwxyz'') c = None"
    using False by (intro iffD2[OF map_of_zip_is_None]) simp_all
  then have l: "lower_char c = c" by (simp add: lower_char_def)
  have "\<not> (65 \<le> (of_char c :: nat) \<and> (of_char c :: nat) \<le> 90)"
  proof
    assume "65 \<le> (of_char c :: nat) \<and> (of_char c :: nat) \<le> 90"
    then have "(of_char c :: nat) \<in> {65..<91}" by auto
    then have "(of_char c :: nat) \<in> set [65..<91]" by (simp only: set_upt)
    then have "char_of (of_char c :: nat) \<in> set ''ABCDEFGHIJKLMNOPQRSTUVWXYZ''"
      using capital_codes by blast
    then show False using False by simp
  qed
  then have "spec_lower_char c = c" unfolding spec_lower_char_def by (simp only: if_False)
  with l show ?thesis by simp
qed

lemma spec_normalize_eq: "spec_normalize l = normalize l"
proof -
  have "map spec_lower_char xs = lower xs" for xs
    by (simp add: lower_def lower_char_spec)
  moreover have "map (\<lambda>c. if c = CHR ''('' \<or> c = CHR '')'' then CHR '' '' else c) xs
                  = replace_char CHR '')'' CHR '' '' (replace_char CHR ''('' CHR '' '' xs)" for xs
    by (induction xs) (auto simp: replace_char_def)
  ultimately show ?thesis by (simp add: spec_normalize_def normalize_def)
qed

lemma normalize_shape: "\<exists>body. normalize l = CHR ''('' # body @ [CHR '')''] \<and> (CHR 0x0A \<notin> set l \<longrightarrow> CHR 0x0A \<notin> set body)"
proof -
  define inner where "inner = lower (replace_char CHR '')'' CHR '' '' (replace_char CHR ''('' CHR '' '' (strip l)))"
  have n: "normalize l = CHR ''('' # strip inner @ [CHR '')'']"
    by (simp add: normalize_def inner_def)
  have "CHR 0x0A \<notin> set (strip inner)" if "CHR 0x0A \<notin> set l"
  proof -
    have "CHR 0x0A \<notin> set (strip l)" using that set_strip by blast
    then have "CHR 0x0A \<notin> set (replace_char CHR ''('' CHR '' '' (strip l))"
      by (auto simp: replace_char_def split: if_splits)
    then have "CHR 0x0A \<notin> set (replace_char CHR '')'' CHR '' '' (replace_char CHR ''('' CHR '' '' (strip l)))"
      by (auto simp: replace_char_def split: if_splits)
    then have r2: "CHR 0x0A \<notin> set (replace_char CHR '')'' CHR '' '' (replace_char CHR ''('' CHR '' '' (strip l)))"
      by simp
    have "CHR 0x0A \<notin> set inner"
    proof
      assume "CHR 0x0A \<in> set inner"
      then obtain y where y: "y \<in> set (replace_char CHR '')'' CHR '' '' (replace_char CHR ''('' CHR '' '' (strip l)))"
          and ly: "CHR 0x0A = lower_char y"
        unfolding inner_def lower_def by auto
      from ly have "y = CHR 0x0A" using lower_char_newline[of y] by simp
      with y r2 show False by simp
    qed
    then show ?thesis using set_strip by blast
  qed
  with n show ?thesis by blast
qed

lemma normalize_matches: "CHR 0x0A \<notin> set l \<Longrightarrow> propPattern_match (normalize l)"
proof -
  assume nl: "CHR 0x0A \<notin> set l"
  obtain body where b: "normalize l = CHR ''('' # body @ [CHR '')'']" "CHR 0x0A \<notin> set body"
    using normalize_shape[of l] nl by blast
  show ?thesis by (simp add: b propPattern_match_def)
qed

lemma getStateFromStr_loop_lines:
  "\<forall>l\<in>set ls. CHR 0x0A \<notin> set l \<Longrightarrow>
   getStateFromStr_loop ls (s, out) = (State (getAllProps s \<union> (normalize ` set ls - {''()''})), out)"
proof (induction ls arbitrary: s)
  case Nil
  then show ?case by simp
next
  case (Cons l ls)
  have m: "propPattern_match (normalize l)" using Cons.prems normalize_matches by simp
  have rest: "\<forall>l\<in>set ls. CHR 0x0A \<notin> set l" using Cons.prems by simp
  show ?case
  proof (cases "normalize l = ''()''")
    case True
    then show ?thesis using Cons.IH[OF rest, of s] by auto
  next
    case False
    then show ?thesis using m Cons.IH[OF rest, of "addProposition (normalize l) s"]
      by (auto simp: addProposition_def Let_def)
  qed
qed

lemma getStateFromStr_eq:
  "getStateFromStr stateStr = (State (normalize ` set (py_split [CHR 0x0A] stateStr) - {''()''}), [])"
  unfolding getStateFromStr_def
  using getStateFromStr_loop_lines[of "py_split [CHR 0x0A] stateStr" State_new "[]"] py_split_single_pieces
  by (auto simp: State_new_def)

lemma getPropSet_loop_union:
  "getPropSet_loop xs stateProps sProps = sProps \<union> \<Union> (getAllProps ` set xs)"
  by (induction xs arbitrary: stateProps sProps) (auto simp: Let_def)

lemma getPropSet_eq:
  "getPropSet self =
     (if stateList self = [] then Inl IndexError else Inr (\<Union> (getAllProps ` set (stateList self))))"
proof (cases "stateList self")
  case Nil
  then show ?thesis by (simp add: getPropSet_def py_index_def)
next
  case (Cons s0 rest)
  then show ?thesis
    by (auto simp: getPropSet_def py_index_def getPropSet_loop_union Let_def)
qed

lemma normalize_Nil: "normalize [] = ''()''"
  by (simp add: normalize_def strip_def lower_def replace_char_def)

lemma section_body_lines:
  "section_body ls = concat (map (\<lambda>l. l @ [CHR 0x0A]) ([] # ls))"
  by (simp add: section_body_def)

lemma getStateFromStr_section_body:
  assumes "list_all whole_line ls"
  shows "getStateFromStr (section_body ls) = (State (section_props ls), [])"
proof -
  have nl: "\<forall>l\<in>set ([] # ls). CHR 0x0A \<notin> set l"
    using assms by (auto simp: list_all_iff whole_line_def)
  have "py_split [CHR 0x0A] (concat (map (\<lambda>l. l @ [CHR 0x0A]) ([] # ls)) @ []) = ([] # ls) @ py_split [CHR 0x0A] []"
    using nl by (rule py_split_lines)
  then have "py_split [CHR 0x0A] (section_body ls) = [] # ls @ [[]]"
    by (simp add: section_body_lines)
  then have "normalize ` set (py_split [CHR 0x0A] (section_body ls)) - {''()''} = section_props ls"
    by (auto simp: section_props_def spec_normalize_eq normalize_Nil)
  then show ?thesis by (simp add: getStateFromStr_eq)
qed

lemma section_body_no_delimiter:
  assumes "list_all whole_line ls"
  shows "\<not> occurs stateDelimiter (section_body ls @ butlast stateDelimiter)"
proof
  assume "occurs stateDelimiter (section_body ls @ butlast stateDelimiter)"
  then have "occurs stateDelimiter (concat (map (\<lambda>l. l @ [CHR 0x0A]) ([] # ls)) @ butlast stateDelimiter)"
    by (simp only: section_body_lines)
  moreover have "CHR 0x0A \<notin> set stateDelimiter"
    by (simp add: stateDelimiter_def)
  ultimately have "(\<exists>l\<in>set ([] # ls). occurs stateDelimiter l) \<or> occurs stateDelimiter (butlast stateDelimiter)"
    by (intro occurs_lines) 
  moreover have "\<not> occurs stateDelimiter (butlast stateDelimiter)"
    by (simp add: stateDelimiter_def)
  moreover have "\<not> occurs stateDelimiter []"
    by (simp add: stateDelimiter_def)
  ultimately show False
    using assms by (auto simp: list_all_iff whole_line_def)
qed

lemma py_split_sections:
  "list_all (list_all whole_line) secs \<Longrightarrow> \<not> occurs stateDelimiter (b @ butlast stateDelimiter) \<Longrightarrow>
   py_split stateDelimiter (b @ concat (map section_text secs)) = b # map section_body secs"
proof (induction secs arbitrary: b)
  case Nil
  have "\<not> occurs stateDelimiter b" using Nil.prems(2) occurs_appendI by blast
  then show ?case by (simp add: py_split_no_occurrence stateDelimiter_def)
next
  case (Cons ls secs)
  have ne: "stateDelimiter \<noteq> []" by (simp add: stateDelimiter_def)
  have wf: "list_all whole_line ls" and rest: "list_all (list_all whole_line) secs"
    using Cons.prems(1) by simp_all
  have "py_split stateDelimiter (b @ stateDelimiter @ (section_body ls @ concat (map section_text secs)))
          = b # py_split stateDelimiter (section_body ls @ concat (map section_text secs))"
    using ne Cons.prems(2) by (rule py_split_first)
  also have "py_split stateDelimiter (section_body ls @ concat (map section_text secs))
          = section_body ls # map section_body secs"
    using rest section_body_no_delimiter[OF wf] by (rule Cons.IH)
  finally show ?case by (simp add: section_text_def)
qed

lemma parseFFOutput_loop_eq:
  "parseFFOutput_loop xs acc = acc @ filter (\<lambda>s. size_State s > 0) (map (\<lambda>x. fst (getStateFromStr x)) xs)"
  by (induction xs arbitrary: acc) (auto simp: Let_def)

lemma size_State_section:
  "list_ex (\<lambda>l. normalize l \<noteq> ''()'') ls \<Longrightarrow> size_State (State (section_props ls)) > 0"
proof -
  assume "list_ex (\<lambda>l. normalize l \<noteq> ''()'') ls"
  then have "section_props ls \<noteq> {}" by (auto simp: list_ex_iff section_props_def spec_normalize_eq)
  moreover have "finite (section_props ls)" by (simp add: section_props_def)
  ultimately show ?thesis by (simp add: size_State_def card_gt_0_iff)
qed

lemma size_State_newline: "size_State (fst (getStateFromStr [CHR 0x0A])) = 0"
  by code_simp

lemma parseFFOutput_loop_sections:
  assumes "list_all whole_section secs"
  shows "parseFFOutput_loop ([CHR 0x0A] # map section_body secs) [] = map (\<lambda>ls. State (section_props ls)) secs"
proof -
  have "filter (\<lambda>s. size_State s > 0) (map (\<lambda>x. fst (getStateFromStr x)) (map section_body secs))
          = map (\<lambda>ls. State (section_props ls)) secs"
    using assms
  proof (induction secs)
    case Nil
    then show ?case by simp
  next
    case (Cons ls secs)
    then have wf: "list_all whole_line ls" and ex: "list_ex (\<lambda>l. normalize l \<noteq> ''()'') ls"
      by (simp_all add: whole_section_def spec_normalize_eq)
    show ?case
      using Cons size_State_section[OF ex] by (simp add: getStateFromStr_section_body[OF wf])
  qed
  then show ?thesis
    by (simp add: parseFFOutput_loop_eq size_State_newline)
qed

lemma sections_as_lines:
  "concat (map section_text secs)
     = concat (map (\<lambda>l. l @ [CHR 0x0A]) (concat (map (\<lambda>ls. stateDelimiter # ls) secs)))"
  by (induction secs) (simp_all add: section_text_def section_body_def)

lemma stateListDelimiter_decomp: "stateListDelimiter = ''*** '' @ stateDelimiter @ ''s ***''"
  by (simp add: stateListDelimiter_def stateDelimiter_def)

lemma sections_no_list_delimiter:
  assumes "list_all (list_all whole_line) secs"
  shows "\<not> occurs stateListDelimiter ([CHR 0x0A] @ concat (map section_text secs))"
proof
  assume "occurs stateListDelimiter ([CHR 0x0A] @ concat (map section_text secs))"
  then have "occurs stateListDelimiter
               (concat (map (\<lambda>l. l @ [CHR 0x0A]) ([] # concat (map (\<lambda>ls. stateDelimiter # ls) secs))) @ [])"
    by (simp add: sections_as_lines)
  moreover have "CHR 0x0A \<notin> set stateListDelimiter"
    by (simp add: stateListDelimiter_def)
  ultimately have "(\<exists>l\<in>set ([] # concat (map (\<lambda>ls. stateDelimiter # ls) secs)). occurs stateListDelimiter l)
                     \<or> occurs stateListDelimiter []"
    by (intro occurs_lines)
  moreover have "\<not> occurs stateListDelimiter []"
    by (simp add: stateListDelimiter_def)
  ultimately obtain l where l: "l \<in> set (concat (map (\<lambda>ls. stateDelimiter # ls) secs))"
      and o: "occurs stateListDelimiter l"
    by auto
  from o have od: "occurs stateDelimiter l"
    using occurs_sub[of "''*** ''" stateDelimiter "''s ***''" l] by (simp only: stateListDelimiter_decomp)
  from l consider "l = stateDelimiter" | ls where "ls \<in> set secs" "l \<in> set ls"
    by (auto split: if_splits)
  then show False
  proof cases
    case 1
    then have "occurs stateListDelimiter stateDelimiter" using o by simp
    then show False by (simp add: stateListDelimiter_def stateDelimiter_def)
  next
    case 2
    then have "whole_line l" using assms by (auto simp: list_all_iff)
    then show False using od by (simp add: whole_line_def)
  qed
qed

lemma whole_sections_lines: "list_all whole_section secs \<Longrightarrow> list_all (list_all whole_line) secs"
  by (auto simp: list_all_iff whole_section_def)

lemma parse_trace_text:
  assumes "\<not> occurs stateListDelimiter (pre @ butlast stateListDelimiter)" and "list_all whole_section secs"
  shows "py_index (py_split stateListDelimiter (trace_text pre secs)) 1
           = Inr ([CHR 0x0A] @ concat (map section_text secs))"
    and "parseFFOutput_loop (py_split stateDelimiter ([CHR 0x0A] @ concat (map section_text secs))) []
           = map (\<lambda>ls. State (section_props ls)) secs"
proof -
  have ne: "stateListDelimiter \<noteq> []" by (simp add: stateListDelimiter_def)
  have wl: "list_all (list_all whole_line) secs" using assms(2) by (rule whole_sections_lines)
  have "py_split stateListDelimiter ([CHR 0x0A] @ concat (map section_text secs))
          = [[CHR 0x0A] @ concat (map section_text secs)]"
    using ne sections_no_list_delimiter[OF wl] by (rule py_split_no_occurrence)
  moreover have "py_index (py_split stateListDelimiter (pre @ stateListDelimiter @ ([CHR 0x0A] @ concat (map section_text secs)))) 1
          = Inr (hd (py_split stateListDelimiter ([CHR 0x0A] @ concat (map section_text secs))))"
    using ne assms(1) by (rule py_split_after_first)
  ultimately show "py_index (py_split stateListDelimiter (trace_text pre secs)) 1
           = Inr ([CHR 0x0A] @ concat (map section_text secs))"
    by (simp add: trace_text_def)
  have "\<not> occurs stateDelimiter ([CHR 0x0A] @ butlast stateDelimiter)"
    by (simp add: stateDelimiter_def)
  then have "py_split stateDelimiter ([CHR 0x0A] @ concat (map section_text secs))
               = [CHR 0x0A] # map section_body secs"
    using wl by (intro py_split_sections)
  then show "parseFFOutput_loop (py_split stateDelimiter ([CHR 0x0A] @ concat (map section_text secs))) []
           = map (\<lambda>ls. State (section_props ls)) secs"
    using parseFFOutput_loop_sections[OF assms(2)] by simp
qed

section \<open>Facts about the patcher\<close>

lemma foldl_addProposition:
  "foldl (\<lambda>d x. addProposition x d) s xs = State (getAllProps s \<union> set xs)"
  by (induction xs arbitrary: s) (auto simp: addProposition_def)

lemma patchWithProps_eq:
  "patchWithProps initFileMgr xs m = patchInitState initFileMgr (State (set xs)) m"
  by (simp add: patchWithProps_def foldl_addProposition State_new_def)

lemma getStateByIndex_in_range:
  "0 \<le> i \<Longrightarrow> i + 1 < int (length (stateList self)) \<Longrightarrow>
   getStateByIndex self i = Inr (StateObj (stateList self ! nat i))"
  by (simp add: getStateByIndex_def py_index_def)

lemma getStateByIndex_sentinel:
  "int (length (stateList self)) \<le> i + 1 \<Longrightarrow> getStateByIndex self i = Inr (IntObj (- 1))"
  by (simp add: getStateByIndex_def)

lemma patchWithFFOutput_outcome:
  "(\<exists>d. \<forall>m. patchWithFFOutput cwa initFileMgr fs f n m = Ok (patchInitState initFileMgr d m))
   \<or> (\<exists>e. \<forall>m. patchWithFFOutput cwa initFileMgr fs f n m = Raised e m)"
proof -
  define r where "r =
    (case OutputParser_init fs f of
       Inl e \<Rightarrow> Inl e
     | Inr op \<Rightarrow>
         (case getPropSet op of
            Inl e \<Rightarrow> Inl e
          | Inr ps \<Rightarrow>
              (case getStateByIndex op n of
                 Inl e \<Rightarrow> Inl e
               | Inr d \<Rightarrow> call_makeCWAExplicit cwa d ps)))"
  have "\<forall>m. patchWithFFOutput cwa initFileMgr fs f n m =
          (case r of Inl e \<Rightarrow> Raised e m | Inr d \<Rightarrow> Ok (patchInitState initFileMgr d m))"
    by (simp add: patchWithFFOutput_def r_def split: sum.splits)
  then show ?thesis by (cases r) auto
qed

lemma example_parse:
  "OutputParser_init example_files ''trace''
     = Inr \<lparr>fname = ''trace'', stateList = [State {''(at a)'', ''(on b c)''}, State {''(at a)''}],
            propSet = {}\<rparr>"
  by code_simp

lemma example_parse_empty:
  "OutputParser_init example_files ''empty'' = Inr \<lparr>fname = ''empty'', stateList = [], propSet = {}\<rparr>"
  by code_simp

lemma example_parse_noise:
  "OutputParser_init example_files ''noise'' = Inl IndexError"
  by code_simp

section \<open>The claims\<close>

text \<open>
  C1 (the code departs from the claim). The claim: \<open>getStateByIndex\<close> returns the state at
  every index from 0 to the last one, and reports every other index without returning a
  state or reading out of bounds. On a trace of two states the code turns down the last
  index 1 with the integer \<open>-1\<close>, returns the last state for index \<open>-1\<close>, and lets the
  list access raise for index \<open>-3\<close>.
\<close>

theorem getStateByIndex_off_by_one:
  "getStateByIndex \<lparr>fname = ''f'', stateList = [State {''(at a)'', ''(on b c)''}, State {''(at a)''}],
                     propSet = {}\<rparr> 1 = Inr (IntObj (- 1))
   \<and> getStateByIndex \<lparr>fname = ''f'', stateList = [State {''(at a)'', ''(on b c)''}, State {''(at a)''}],
                       propSet = {}\<rparr> (- 1) = Inr (StateObj (State {''(at a)''}))
   \<and> getStateByIndex \<lparr>fname = ''f'', stateList = [State {''(at a)'', ''(on b c)''}, State {''(at a)''}],
                       propSet = {}\<rparr> (- 3) = Inl IndexError"
  by (simp add: getStateByIndex_def py_index_def)

text \<open>
  C2, as stated, fails: a bound file without the state-list delimiter makes the list
  access after the split raise a plain IndexError, and a literal text is never split on
  the state-list delimiter at all, so it parses whether or not the delimiter is there
  (and the delimiter line itself, which contains the state delimiter, is then read as
  two states).
\<close>

theorem parseFFOutput_no_domain_error:
  "parseFFOutput example_files \<lparr>fname = ''noise'', stateList = [], propSet = {}\<rparr> [] = Inl IndexError
   \<and> parseFFOutput example_files \<lparr>fname = [], stateList = [], propSet = {}\<rparr>
        (''State'' @ [CHR 0x0A] @ ''(at a)'' @ [CHR 0x0A])
       = Inr \<lparr>fname = [], stateList = [State {''(at a)''}], propSet = {}\<rparr>
   \<and> parseFFOutput example_files \<lparr>fname = [], stateList = [], propSet = {}\<rparr> example_trace
       = Inr \<lparr>fname = [], stateList = [State {''(***)''}, State {''(s ***)''},
                State {''(at a)'', ''(on b c)''}, State {''(at a)''}], propSet = {}\<rparr>"
  by code_simp

text \<open>
  C2, amended: with a bound file, the parser splits the file's text on the state-list
  delimiter and parses the piece after the first occurrence, up to the next occurrence
  if there is one; when the delimiter is absent the call raises an IndexError. With a
  literal text and no bound file, the whole text is parsed without any split on the
  state-list delimiter.
\<close>

theorem parseFFOutput_sources:
  "(fname self \<noteq> [] \<and> fs (fname self) = Some contents \<and> \<not> occurs stateListDelimiter contents \<longrightarrow>
      parseFFOutput fs self fileStr = Inl IndexError)
   \<and> (fname self \<noteq> [] \<and> fs (fname self) = Some (pre @ stateListDelimiter @ rest)
        \<and> \<not> occurs stateListDelimiter (pre @ butlast stateListDelimiter) \<longrightarrow>
      parseFFOutput fs self [] =
        Inr (self\<lparr>stateList :=
               parseFFOutput_loop (py_split stateDelimiter (hd (py_split stateListDelimiter rest))) []\<rparr>))
   \<and> (fname self = [] \<and> fileStr \<noteq> [] \<longrightarrow>
      parseFFOutput fs self fileStr =
        Inr (self\<lparr>stateList := parseFFOutput_loop (py_split stateDelimiter fileStr) []\<rparr>))"
proof (intro conjI impI)
  assume a: "fname self \<noteq> [] \<and> fs (fname self) = Some contents \<and> \<not> occurs stateListDelimiter contents"
  have ne: "stateListDelimiter \<noteq> []" by (simp add: stateListDelimiter_def)
  have "py_index (py_split stateListDelimiter contents) 1 = Inl IndexError"
    using a ne by (intro py_split_absent) simp_all
  then show "parseFFOutput fs self fileStr = Inl IndexError"
    using a by (simp add: parseFFOutput_def tryIO_def)
next
  assume a: "fname self \<noteq> [] \<and> fs (fname self) = Some (pre @ stateListDelimiter @ rest)
        \<and> \<not> occurs stateListDelimiter (pre @ butlast stateListDelimiter)"
  have ne: "stateListDelimiter \<noteq> []" by (simp add: stateListDelimiter_def)
  have "py_index (py_split stateListDelimiter (pre @ stateListDelimiter @ rest)) 1
          = Inr (hd (py_split stateListDelimiter rest))"
    using a ne by (intro py_split_after_first) simp_all
  then show "parseFFOutput fs self [] =
        Inr (self\<lparr>stateList :=
               parseFFOutput_loop (py_split stateDelimiter (hd (py_split stateListDelimiter rest))) []\<rparr>)"
    using a by (simp add: parseFFOutput_def tryIO_def)
next
  assume "fname self = [] \<and> fileStr \<noteq> []"
  then show "parseFFOutput fs self fileStr =
        Inr (self\<lparr>stateList := parseFFOutput_loop (py_split stateDelimiter fileStr) []\<rparr>)"
    by (simp add: parseFFOutput_def)
qed

theorem parseFFOutput_sources_witness:
  "example_files ''noise'' = Some ''no states here''
   \<and> \<not> occurs stateListDelimiter ''no states here''
   \<and> parseFFOutput example_files \<lparr>fname = ''noise'', stateList = [], propSet = {}\<rparr> [] = Inl IndexError
   \<and> example_files ''trace'' = Some ([] @ stateListDelimiter @ drop 14 example_trace)
   \<and> parseFFOutput example_files \<lparr>fname = ''trace'', stateList = [], propSet = {}\<rparr> []
       = Inr \<lparr>fname = ''trace'', stateList = [State {''(at a)'', ''(on b c)''}, State {''(at a)''}],
              propSet = {}\<rparr>
   \<and> parseFFOutput example_files \<lparr>fname = [], stateList = [], propSet = {}\<rparr>
        (''State'' @ [CHR 0x0A] @ ''(at a)'' @ [CHR 0x0A])
       = Inr \<lparr>fname = [], stateList = [State {''(at a)''}], propSet = {}\<rparr>"
proof -
  let ?N = "\<lparr>fname = ''noise'', stateList = [], propSet = {}\<rparr>"
  let ?T = "\<lparr>fname = ''trace'', stateList = [], propSet = {}\<rparr>"
  let ?L = "\<lparr>fname = [], stateList = [], propSet = {}\<rparr>"
  have n: "fname ?N \<noteq> [] \<and> example_files (fname ?N) = Some ''no states here''
             \<and> \<not> occurs stateListDelimiter ''no states here''"
    by code_simp
  have 1: "parseFFOutput example_files ?N [] = Inl IndexError"
    using parseFFOutput_sources[where fs = example_files and self = ?N and contents = "''no states here''"
        and fileStr = "[]"] n
    by blast
  have t: "fname ?T \<noteq> [] \<and> example_files (fname ?T) = Some ([] @ stateListDelimiter @ drop 14 example_trace)
             \<and> \<not> occurs stateListDelimiter ([] @ butlast stateListDelimiter)"
    by code_simp
  have 2: "parseFFOutput example_files ?T [] =
        Inr (?T\<lparr>stateList := parseFFOutput_loop
               (py_split stateDelimiter (hd (py_split stateListDelimiter (drop 14 example_trace)))) []\<rparr>)"
    using parseFFOutput_sources[where fs = example_files and self = ?T and pre = "[]"
        and rest = "drop 14 example_trace"] t
    by blast
  have e2: "parseFFOutput_loop
               (py_split stateDelimiter (hd (py_split stateListDelimiter (drop 14 example_trace)))) []
             = [State {''(at a)'', ''(on b c)''}, State {''(at a)''}]"
    by code_simp
  have l: "fname ?L = [] \<and> ''State'' @ [CHR 0x0A] @ ''(at a)'' @ [CHR 0x0A] \<noteq> []"
    by simp
  have 3: "parseFFOutput example_files ?L (''State'' @ [CHR 0x0A] @ ''(at a)'' @ [CHR 0x0A]) =
        Inr (?L\<lparr>stateList := parseFFOutput_loop
               (py_split stateDelimiter (''State'' @ [CHR 0x0A] @ ''(at a)'' @ [CHR 0x0A])) []\<rparr>)"
    using parseFFOutput_sources[where fs = example_files and self = ?L
        and fileStr = "''State'' @ [CHR 0x0A] @ ''(at a)'' @ [CHR 0x0A]"] l
    by blast
  have e3: "parseFFOutput_loop (py_split stateDelimiter (''State'' @ [CHR 0x0A] @ ''(at a)'' @ [CHR 0x0A])) []
             = [State {''(at a)''}]"
    by code_simp
  show ?thesis
    using n 1 t 2 e2 3 e3 by simp
qed

text \<open>
  C3, as stated, fails: not every trace source and index reaches the merge. A trace file
  without any state makes \<open>getPropSet\<close> raise, and the manager receives no call.
\<close>

theorem patchWithFFOutput_empty_trace_no_merge:
  "patchWithFFOutput (makeCWAExplicit negated) recorder example_files ''empty'' 0 [] = Raised IndexError []"
  by code_simp

text \<open>
  C3, amended: when the trace parses and the index is one that \<open>getStateByIndex\<close> accepts
  (from 0 to the length of the trace minus 2), \<open>patchWithFFOutput\<close> takes the state at
  that index, completes it against the union of the propositions of all states of the
  trace, and merges the completed state into InitState through the manager, once. When
  parsing raises, or the trace has no state, the exception leaves the patcher and nothing
  is merged.
\<close>

theorem patchWithFFOutput_full_universe:
  "(OutputParser_init fs ffOutputFile = Inr op \<and> 0 \<le> stateNum \<and> stateNum + 1 < int (length (stateList op)) \<longrightarrow>
      patchWithFFOutput cwa initFileMgr fs ffOutputFile stateNum m
        = Ok (patchInitState initFileMgr
               (cwa (stateList op ! nat stateNum) (\<Union> (getAllProps ` set (stateList op)))) m))
   \<and> (OutputParser_init fs ffOutputFile = Inl e \<longrightarrow>
      patchWithFFOutput cwa initFileMgr fs ffOutputFile stateNum m = Raised e m)
   \<and> (OutputParser_init fs ffOutputFile = Inr op \<and> stateList op = [] \<longrightarrow>
      patchWithFFOutput cwa initFileMgr fs ffOutputFile stateNum m = Raised IndexError m)"
proof (intro conjI impI)
  assume a: "OutputParser_init fs ffOutputFile = Inr op \<and> 0 \<le> stateNum
               \<and> stateNum + 1 < int (length (stateList op))"
  then have ne: "stateList op \<noteq> []" by auto
  have g: "getStateByIndex op stateNum = Inr (StateObj (stateList op ! nat stateNum))"
    using a by (simp add: getStateByIndex_in_range)
  show "patchWithFFOutput cwa initFileMgr fs ffOutputFile stateNum m
        = Ok (patchInitState initFileMgr
               (cwa (stateList op ! nat stateNum) (\<Union> (getAllProps ` set (stateList op)))) m)"
    using a ne g by (simp add: patchWithFFOutput_def getPropSet_eq call_makeCWAExplicit_def)
next
  assume "OutputParser_init fs ffOutputFile = Inl e"
  then show "patchWithFFOutput cwa initFileMgr fs ffOutputFile stateNum m = Raised e m"
    by (simp add: patchWithFFOutput_def)
next
  assume "OutputParser_init fs ffOutputFile = Inr op \<and> stateList op = []"
  then show "patchWithFFOutput cwa initFileMgr fs ffOutputFile stateNum m = Raised IndexError m"
    by (simp add: patchWithFFOutput_def getPropSet_eq)
qed

theorem patchWithFFOutput_full_universe_witness:
  "patchWithFFOutput (makeCWAExplicit negated) recorder example_files ''trace'' 0 []
     = Ok [PatchInitState (State {''(at a)'', ''(on b c)''})]
   \<and> patchWithFFOutput (makeCWAExplicit negated) recorder example_files ''noise'' 0 [] = Raised IndexError []
   \<and> patchWithFFOutput (makeCWAExplicit negated) recorder example_files ''empty'' 0 [] = Raised IndexError []"
proof -
  let ?op = "\<lparr>fname = ''trace'', stateList = [State {''(at a)'', ''(on b c)''}, State {''(at a)''}],
            propSet = {}\<rparr>"
  let ?em = "\<lparr>fname = ''empty'', stateList = [], propSet = {}\<rparr>"
  have h1: "OutputParser_init example_files ''trace'' = Inr ?op \<and> (0::int) \<le> 0
             \<and> (0::int) + 1 < int (length (stateList ?op))"
    using example_parse by simp
  have 1: "patchWithFFOutput (makeCWAExplicit negated) recorder example_files ''trace'' 0 []
        = Ok (patchInitState recorder
               (makeCWAExplicit negated (stateList ?op ! nat 0) (\<Union> (getAllProps ` set (stateList ?op)))) [])"
    using patchWithFFOutput_full_universe[where fs = example_files and ffOutputFile = "''trace''"
        and op = ?op and stateNum = 0 and cwa = "makeCWAExplicit negated" and initFileMgr = recorder
        and m = "[]"] h1
    by blast
  have v: "patchInitState recorder
               (makeCWAExplicit negated (stateList ?op ! nat 0) (\<Union> (getAllProps ` set (stateList ?op)))) []
            = [PatchInitState (State {''(at a)'', ''(on b c)''})]"
    by code_simp
  have 2: "patchWithFFOutput (makeCWAExplicit negated) recorder example_files ''noise'' 0 [] = Raised IndexError []"
    using patchWithFFOutput_full_universe[where fs = example_files and ffOutputFile = "''noise''"
        and e = IndexError and stateNum = 0 and cwa = "makeCWAExplicit negated" and initFileMgr = recorder
        and m = "[]"] example_parse_noise
    by blast
  have h3: "OutputParser_init example_files ''empty'' = Inr ?em \<and> stateList ?em = []"
    using example_parse_empty by simp
  have 3: "patchWithFFOutput (makeCWAExplicit negated) recorder example_files ''empty'' 0 [] = Raised IndexError []"
    using patchWithFFOutput_full_universe[where fs = example_files and ffOutputFile = "''empty''"
        and op = ?em and stateNum = 0 and cwa = "makeCWAExplicit negated" and initFileMgr = recorder
        and m = "[]"] h3
    by blast
  show ?thesis using 1 v 2 3 by simp
qed

text \<open>
  C4, as stated, fails: the line \<open>not-a-fact\<close> is wrapped in parentheses by the
  normalisation, passes the pattern, and is added to the state; nothing is reported.
\<close>

theorem getStateFromStr_not_a_fact_kept:
  "getStateFromStr (''(at a)'' @ [CHR 0x0A] @ ''not-a-fact'' @ [CHR 0x0A])
     = (State {''(at a)'', ''(not-a-fact)''}, [])"
  by code_simp

text \<open>
  C4, amended: for every state section, every line that does not normalise to the empty
  proposition \<open>()\<close> is added to the state in its normalised, parenthesised form, and no
  line is ever reported or excluded as malformed.
\<close>

theorem getStateFromStr_keeps_every_line:
  "getStateFromStr stateStr
     = (State (normalize ` set (py_split [CHR 0x0A] stateStr) - {''()''}), [])"
  by (rule getStateFromStr_eq)

theorem getStateFromStr_keeps_every_line_witness:
  "getStateFromStr (''(At A)'' @ [CHR 0x0A] @ ''not-a-fact'')
     = (State {''(at a)'', ''(not-a-fact)''}, [])"
proof -
  have "normalize ` set (py_split [CHR 0x0A] (''(At A)'' @ [CHR 0x0A] @ ''not-a-fact'')) - {''()''}
          = {''(at a)'', ''(not-a-fact)''}"
    by code_simp
  then show ?thesis
    using getStateFromStr_keeps_every_line[of "''(At A)'' @ [CHR 0x0A] @ ''not-a-fact''"]
    by (simp only:)
qed

text \<open>
  C5, as stated, fails: the text is cut at every occurrence of the state delimiter, also
  inside a proposition line, so a section holding the line \<open>(inState r1)\<close> comes out as
  the two states \<open>{(in)}\<close> and \<open>{(r1)}\<close> instead of the one state \<open>{(instate r1)}\<close>; and
  the example text given as a literal text, which is not split on the state-list
  delimiter, parses to four states.
\<close>

theorem OutputParser_delimiter_inside_line:
  "OutputParser_init example_files ''instate''
     = Inr \<lparr>fname = ''instate'', stateList = [State {''(in)''}, State {''(r1)''}], propSet = {}\<rparr>
   \<and> spec_normalize ''(inState r1)'' = ''(instate r1)''
   \<and> parseFFOutput example_files \<lparr>fname = [], stateList = [], propSet = {}\<rparr>
        (''*** States ***'' @ [CHR 0x0A] @ ''State'' @ [CHR 0x0A] @ ''(at a)'' @ [CHR 0x0A]
           @ ''(on b c)'' @ [CHR 0x0A] @ ''State'' @ [CHR 0x0A] @ ''(at a)'' @ [CHR 0x0A])
       = Inr \<lparr>fname = [], stateList = [State {''(***)''}, State {''(s ***)''},
                State {''(at a)'', ''(on b c)''}, State {''(at a)''}], propSet = {}\<rparr>"
  by code_simp

text \<open>
  C5, amended: for a trace read from the bound file and made of any text up to the first
  occurrence of the state-list delimiter, the delimiter, and then \<open>k\<close> state sections,
  each the state delimiter on a line of its own followed by lines that hold no line break
  and no occurrence of the state delimiter, at least one of them not blank, the parser
  yields a trace of exactly \<open>k\<close> states, and the state at each position holds exactly the
  normalised lines of its section, as a set (a line is trimmed, its parentheses replaced
  by spaces, lower-cased, trimmed again and wrapped in one pair of parentheses). In
  particular the example text, read from the bound file, parses to a trace of length 2
  with state 0 equal to \<open>{(at a), (on b c)}\<close> and state 1 equal to \<open>{(at a)}\<close>.
\<close>

theorem OutputParser_wellformed_trace:
  "(ffOutputFile \<noteq> [] \<and> fs ffOutputFile = Some (trace_text pre secs)
      \<and> \<not> occurs stateListDelimiter (pre @ butlast stateListDelimiter)
      \<and> list_all whole_section secs \<longrightarrow>
    (\<exists>op. OutputParser_init fs ffOutputFile = Inr op
        \<and> length (stateList op) = length secs
        \<and> (\<forall>i<length secs. getAllProps (stateList op ! i) = section_props (secs ! i))))
   \<and> example_files ''trace''
        = Some (''*** States ***'' @ [CHR 0x0A] @ ''State'' @ [CHR 0x0A] @ ''(at a)'' @ [CHR 0x0A]
                @ ''(on b c)'' @ [CHR 0x0A] @ ''State'' @ [CHR 0x0A] @ ''(at a)'' @ [CHR 0x0A])
   \<and> (\<exists>op. OutputParser_init example_files ''trace'' = Inr op
        \<and> length (stateList op) = 2
        \<and> getAllProps (stateList op ! 0) = {''(at a)'', ''(on b c)''}
        \<and> getAllProps (stateList op ! 1) = {''(at a)''})"
proof (intro conjI impI)
  assume a: "ffOutputFile \<noteq> [] \<and> fs ffOutputFile = Some (trace_text pre secs)
      \<and> \<not> occurs stateListDelimiter (pre @ butlast stateListDelimiter)
      \<and> list_all whole_section secs"
  define contents where "contents = trace_text pre secs"
  define rest where "rest = [CHR 0x0A] @ concat (map section_text secs)"
  have f: "fs ffOutputFile = Some contents" using a by (simp add: contents_def)
  have 1: "py_index (py_split stateListDelimiter contents) 1 = Inr rest"
    unfolding contents_def rest_def using a by (intro parse_trace_text(1)) simp_all
  have 2: "parseFFOutput_loop (py_split stateDelimiter rest) [] = map (\<lambda>ls. State (section_props ls)) secs"
    unfolding rest_def using a by (intro parse_trace_text(2)[of pre]) simp_all
  have ne: "ffOutputFile \<noteq> []" using a by simp
  have "OutputParser_init fs ffOutputFile
          = Inr \<lparr>fname = ffOutputFile, stateList = map (\<lambda>ls. State (section_props ls)) secs, propSet = {}\<rparr>"
    by (simp add: OutputParser_init_def parseFFOutput_def tryIO_def ne f 1 2)
  then show "\<exists>op. OutputParser_init fs ffOutputFile = Inr op
        \<and> length (stateList op) = length secs
        \<and> (\<forall>i<length secs. getAllProps (stateList op ! i) = section_props (secs ! i))"
    by simp
next
  show "example_files ''trace''
        = Some (''*** States ***'' @ [CHR 0x0A] @ ''State'' @ [CHR 0x0A] @ ''(at a)'' @ [CHR 0x0A]
                @ ''(on b c)'' @ [CHR 0x0A] @ ''State'' @ [CHR 0x0A] @ ''(at a)'' @ [CHR 0x0A])"
    by (simp add: example_files_def example_trace_def)
next
  show "\<exists>op. OutputParser_init example_files ''trace'' = Inr op
        \<and> length (stateList op) = 2
        \<and> getAllProps (stateList op ! 0) = {''(at a)'', ''(on b c)''}
        \<and> getAllProps (stateList op ! 1) = {''(at a)''}"
    by (simp add: example_parse)
qed

theorem OutputParser_wellformed_trace_witness:
  "example_files ''trace'' = Some (trace_text [] [[''(at a)'', ''(on b c)''], [''(at a)'']])
   \<and> list_all whole_section [[''(at a)'', ''(on b c)''], [''(at a)'']]
   \<and> (\<exists>op. OutputParser_init example_files ''trace'' = Inr op
        \<and> length (stateList op) = 2
        \<and> getAllProps (stateList op ! 0) = section_props [''(at a)'', ''(on b c)'']
        \<and> getAllProps (stateList op ! 1) = section_props [''(at a)''])"
proof -
  have h1: "example_files ''trace'' = Some (trace_text [] [[''(at a)'', ''(on b c)''], [''(at a)'']])"
    by code_simp
  have h2: "\<not> occurs stateListDelimiter ([] @ butlast stateListDelimiter)"
    by code_simp
  have h3: "list_all whole_section [[''(at a)'', ''(on b c)''], [''(at a)'']]"
    by code_simp
  have h: "''trace'' \<noteq> []
      \<and> example_files ''trace'' = Some (trace_text [] [[''(at a)'', ''(on b c)''], [''(at a)'']])
      \<and> \<not> occurs stateListDelimiter ([] @ butlast stateListDelimiter)
      \<and> list_all whole_section [[''(at a)'', ''(on b c)''], [''(at a)'']]"
  proof (intro conjI)
    show "''trace'' \<noteq> []" by simp
    show "example_files ''trace'' = Some (trace_text [] [[''(at a)'', ''(on b c)''], [''(at a)'']])"
      by (rule h1)
    show "\<not> occurs stateListDelimiter ([] @ butlast stateListDelimiter)" by (rule h2)
    show "list_all whole_section [[''(at a)'', ''(on b c)''], [''(at a)'']]" by (rule h3)
  qed
  have e: "\<exists>op. OutputParser_init example_files ''trace'' = Inr op
        \<and> length (stateList op) = 2
        \<and> getAllProps (stateList op ! 0) = section_props [''(at a)'', ''(on b c)'']
        \<and> getAllProps (stateList op ! 1) = section_props [''(at a)'']"
    using OutputParser_wellformed_trace[where ffOutputFile = "''trace''" and fs = example_files
        and pre = "[]" and secs = "[[''(at a)'', ''(on b c)''], [''(at a)'']]",
        THEN conjunct1, THEN mp, OF h]
    by auto
  show ?thesis
  proof (intro conjI)
    show "example_files ''trace'' = Some (trace_text [] [[''(at a)'', ''(on b c)''], [''(at a)'']])"
      by (rule h1)
    show "list_all whole_section [[''(at a)'', ''(on b c)''], [''(at a)'']]" by (rule h3)
    show "\<exists>op. OutputParser_init example_files ''trace'' = Inr op
        \<and> length (stateList op) = 2
        \<and> getAllProps (stateList op ! 0) = section_props [''(at a)'', ''(on b c)'']
        \<and> getAllProps (stateList op ! 1) = section_props [''(at a)'']" by (rule e)
  qed
qed

text \<open>
  C6, as stated, fails on the empty trace: \<open>getPropSet\<close> reads the first state before
  its loop, so it raises instead of returning the empty set.
\<close>

theorem getPropSet_empty_trace_raises:
  "getPropSet \<lparr>fname = [], stateList = [], propSet = {}\<rparr> = Inl IndexError
   \<and> getPropSet \<lparr>fname = [], stateList = [], propSet = {}\<rparr> \<noteq> Inr {}"
  by (simp add: getPropSet_def py_index_def)

text \<open>
  C6, amended: for every non-empty trace \<open>getPropSet\<close> returns exactly the union of the
  proposition sets of all its states, for a single-state trace that state's own set; on
  an empty trace it raises an IndexError.
\<close>

theorem getPropSet_union:
  "getPropSet self =
     (if stateList self = [] then Inl IndexError else Inr (\<Union> (getAllProps ` set (stateList self))))
   \<and> getPropSet (self\<lparr>stateList := [s]\<rparr>) = Inr (getAllProps s)"
  by (simp add: getPropSet_eq)

theorem getPropSet_union_witness:
  "getPropSet \<lparr>fname = ''f'', stateList = [State {''(at a)'', ''(on b c)''}, State {''(at a)''}],
                propSet = {}\<rparr> = Inr {''(at a)'', ''(on b c)''}"
  using getPropSet_union[of "\<lparr>fname = ''f'', stateList = [State {''(at a)'', ''(on b c)''}, State {''(at a)''}],
                propSet = {}\<rparr>"]
  by auto

text \<open>
  C7, as stated, fails: when the trace step raises, as it does for an index out of range,
  the invocation has rolled back and merges nothing.
\<close>

theorem patchStateNumWithProps_stops_after_rollback:
  "patchStateNumWithProps (makeCWAExplicit negated) recorder example_files 7 ''trace'' [''(holding a)''] []
     = Raised AttributeError [RollbackTo 0]"
  by code_simp

text \<open>
  C7, amended: every invocation of \<open>patchStateNumWithProps\<close> first rolls InitState back to
  checkpoint 0. If the trace step returns, the manager then receives exactly the merge of
  the trace-derived completed state followed by the merge of the extra facts; if the trace
  step raises, the exception leaves the patcher with the rollback as the only call. The
  merge of the extra facts never comes before the trace-derived merge.
\<close>

theorem patchStateNumWithProps_order:
  "(\<exists>d. patchWithFFOutput cwa recorder fs ffOutputFile stateNum [] = Ok [PatchInitState d]
        \<and> patchStateNumWithProps cwa recorder fs stateNum ffOutputFile factsFromContinuous calls
            = Ok (calls @ [RollbackTo 0, PatchInitState d, PatchInitState (State (set factsFromContinuous))]))
   \<or> (\<exists>e. patchWithFFOutput cwa recorder fs ffOutputFile stateNum [] = Raised e []
        \<and> patchStateNumWithProps cwa recorder fs stateNum ffOutputFile factsFromContinuous calls
            = Raised e (calls @ [RollbackTo 0]))"
proof -
  consider d where "\<forall>m. patchWithFFOutput cwa recorder fs ffOutputFile stateNum m = Ok (patchInitState recorder d m)"
    | e where "\<forall>m. patchWithFFOutput cwa recorder fs ffOutputFile stateNum m = Raised e m"
    using patchWithFFOutput_outcome[of cwa recorder fs ffOutputFile stateNum] by blast
  then show ?thesis
  proof cases
    case 1
    then have "patchWithFFOutput cwa recorder fs ffOutputFile stateNum [] = Ok [PatchInitState d]
        \<and> patchStateNumWithProps cwa recorder fs stateNum ffOutputFile factsFromContinuous calls
            = Ok (calls @ [RollbackTo 0, PatchInitState d, PatchInitState (State (set factsFromContinuous))])"
      by (simp add: patchStateNumWithProps_def patchWithProps_eq recorder_def)
    then show ?thesis by blast
  next
    case 2
    then have "patchWithFFOutput cwa recorder fs ffOutputFile stateNum [] = Raised e []
        \<and> patchStateNumWithProps cwa recorder fs stateNum ffOutputFile factsFromContinuous calls
            = Raised e (calls @ [RollbackTo 0])"
      by (simp add: patchStateNumWithProps_def recorder_def)
    then show ?thesis by blast
  qed
qed

theorem patchStateNumWithProps_order_witness:
  "patchStateNumWithProps (makeCWAExplicit negated) recorder example_files 0 ''trace'' [''(holding a)''] []
     = Ok [RollbackTo 0, PatchInitState (State {''(at a)'', ''(on b c)''}),
           PatchInitState (State {''(holding a)''})]"
proof -
  have p: "patchWithFFOutput (makeCWAExplicit negated) recorder example_files ''trace'' 0 []
             = Ok [PatchInitState (State {''(at a)'', ''(on b c)''})]"
    by code_simp
  show ?thesis
    using patchStateNumWithProps_order[where cwa = "makeCWAExplicit negated" and fs = example_files
        and ffOutputFile = "''trace''" and stateNum = 0 and factsFromContinuous = "[''(holding a)'']"
        and calls = "[]"] p
    by auto
qed




text \<open>
  C9, as stated, fails: when the marker is absent the list access after the split raises
  a plain IndexError; the code has no error of its own for a missing plan.
\<close>

theorem getFFPlan_absent_marker_IndexError:
  "getFFPlan example_files \<lparr>fname = ''noise'', stateList = [], propSet = {}\<rparr> = Inl IndexError"
  by code_simp

text \<open>
  C9, amended: for a readable file, \<open>getFFPlan\<close> raises an IndexError exactly when the
  marker \<open>found legal plan as follows\<close> is absent; when the marker is present once and
  followed by a \<open>time\<close> marker, it yields the text between the two with every
  occurrence of \<open>step\<close> removed.
\<close>

theorem getFFPlan_marker:
  "(fs (fname self) = Some contents \<longrightarrow>
      (getFFPlan fs self = Inl IndexError) = (\<not> occurs ''found legal plan as follows'' contents))
   \<and> (fs (fname self) = Some (pre @ ''found legal plan as follows'' @ body @ ''time'' @ tail)
        \<and> \<not> occurs ''found legal plan as follows'' (pre @ butlast ''found legal plan as follows'')
        \<and> \<not> occurs ''found legal plan as follows'' (body @ ''time'' @ tail)
        \<and> \<not> occurs ''time'' (body @ butlast ''time'') \<longrightarrow>
      getFFPlan fs self = Inr (py_replace ''step'' '''' body))"
proof (intro conjI impI)
  assume f: "fs (fname self) = Some contents"
  show "(getFFPlan fs self = Inl IndexError) = (\<not> occurs ''found legal plan as follows'' contents)"
  proof (cases "occurs ''found legal plan as follows'' contents")
    case True
    then show ?thesis
      using py_split_present[of "''found legal plan as follows''" contents]
      by (simp add: getFFPlan_def tryIO_def f py_index_0_split)
  next
    case False
    then show ?thesis
      using py_split_absent[of "''found legal plan as follows''" contents]
      by (simp add: getFFPlan_def tryIO_def f)
  qed
next
  assume a: "fs (fname self) = Some (pre @ ''found legal plan as follows'' @ body @ ''time'' @ tail)
        \<and> \<not> occurs ''found legal plan as follows'' (pre @ butlast ''found legal plan as follows'')
        \<and> \<not> occurs ''found legal plan as follows'' (body @ ''time'' @ tail)
        \<and> \<not> occurs ''time'' (body @ butlast ''time'')"
  define contents where "contents = pre @ ''found legal plan as follows'' @ body @ ''time'' @ tail"
  define rest where "rest = body @ ''time'' @ tail"
  have f: "fs (fname self) = Some contents"
    using a by (simp add: contents_def)
  have 1: "py_index (py_split ''found legal plan as follows'' contents) 1
            = Inr (hd (py_split ''found legal plan as follows'' rest))"
    unfolding contents_def rest_def using a by (intro py_split_after_first) simp_all
  have 2: "py_split ''found legal plan as follows'' rest = [rest]"
    unfolding rest_def using a by (intro py_split_no_occurrence) simp_all
  have 3: "py_split ''time'' rest = body # py_split ''time'' tail"
    unfolding rest_def using a by (intro py_split_first) simp_all
  show "getFFPlan fs self = Inr (py_replace ''step'' '''' body)"
    by (simp add: getFFPlan_def tryIO_def f 1 2 3 py_index_0_Cons)
qed

theorem getFFPlan_marker_witness:
  "example_files ''plan'' = Some (''ff: '' @ ''found legal plan as follows''
       @ ([CHR 0x0A] @ ''step    0: PICKUP A'' @ [CHR 0x0A] @ ''        1: STACK A B'' @ [CHR 0x0A])
       @ ''time'' @ '' spent:    0.00 seconds'')
   \<and> getFFPlan example_files \<lparr>fname = ''plan'', stateList = [], propSet = {}\<rparr>
       = Inr ([CHR 0x0A] @ ''    0: PICKUP A'' @ [CHR 0x0A] @ ''        1: STACK A B'' @ [CHR 0x0A])
   \<and> example_files ''noise'' = Some ''no states here''
   \<and> getFFPlan example_files \<lparr>fname = ''noise'', stateList = [], propSet = {}\<rparr> = Inl IndexError"
proof -
  let ?body = "[CHR 0x0A] @ ''step    0: PICKUP A'' @ [CHR 0x0A] @ ''        1: STACK A B'' @ [CHR 0x0A]"
  let ?P = "\<lparr>fname = ''plan'', stateList = [], propSet = {}\<rparr>"
  let ?N = "\<lparr>fname = ''noise'', stateList = [], propSet = {}\<rparr>"
  have f: "example_files (fname ?P) = Some (''ff: '' @ ''found legal plan as follows'' @ ?body
             @ ''time'' @ '' spent:    0.00 seconds'')"
    by (simp add: example_files_def)
  have o1: "\<not> occurs ''found legal plan as follows'' (''ff: '' @ butlast ''found legal plan as follows'')"
    by code_simp
  have o2: "\<not> occurs ''found legal plan as follows'' (?body @ ''time'' @ '' spent:    0.00 seconds'')"
    by code_simp
  have o3: "\<not> occurs ''time'' (?body @ butlast ''time'')"
    by code_simp
  have r: "py_replace ''step'' '''' ?body
            = [CHR 0x0A] @ ''    0: PICKUP A'' @ [CHR 0x0A] @ ''        1: STACK A B'' @ [CHR 0x0A]"
    by code_simp
  have g: "getFFPlan example_files ?P = Inr (py_replace ''step'' '''' ?body)"
    using getFFPlan_marker[where fs = example_files and self = ?P and pre = "''ff: ''" and body = ?body
        and tail = "'' spent:    0.00 seconds''"] f o1 o2 o3
    by blast
  have n: "example_files (fname ?N) = Some ''no states here''"
    by (simp add: example_files_def)
  have o4: "\<not> occurs ''found legal plan as follows'' ''no states here''"
    by code_simp
  have e: "getFFPlan example_files ?N = Inl IndexError"
    using getFFPlan_marker[where fs = example_files and self = ?N and contents = "''no states here''"] n o4
    by blast
  show ?thesis
    using f g r n e by simp
qed

text \<open>
  C10, as stated, fails: the completion is called on the integer \<open>-1\<close>, which has no such
  method, so an AttributeError leaves the patcher before the merge; the manager receives
  no call.
\<close>

theorem patchWithFFOutput_sentinel_raises:
  "patchWithFFOutput (makeCWAExplicit negated) recorder example_files ''trace'' 5 [] = Raised AttributeError []"
  by code_simp

text \<open>
  C10, amended: on a non-empty trace, when the index is at or beyond the last position
  \<open>getStateByIndex\<close> returns the integer \<open>-1\<close> instead of raising, and \<open>patchWithFFOutput\<close>
  does not check for it: the call of the completion on that integer raises an
  AttributeError, nothing is merged, and the manager is left as it was.
\<close>

theorem patchWithFFOutput_sentinel:
  "OutputParser_init fs ffOutputFile = Inr op \<Longrightarrow> stateList op \<noteq> [] \<Longrightarrow>
   int (length (stateList op)) \<le> stateNum + 1 \<Longrightarrow>
   getStateByIndex op stateNum = Inr (IntObj (- 1))
   \<and> patchWithFFOutput cwa initFileMgr fs ffOutputFile stateNum m = Raised AttributeError m"
  by (simp add: patchWithFFOutput_def getPropSet_eq getStateByIndex_sentinel call_makeCWAExplicit_def)

theorem patchWithFFOutput_sentinel_witness:
  "getStateByIndex \<lparr>fname = ''trace'', stateList = [State {''(at a)'', ''(on b c)''}, State {''(at a)''}],
            propSet = {}\<rparr> 2 = Inr (IntObj (- 1))
   \<and> patchWithFFOutput (makeCWAExplicit negated) recorder example_files ''trace'' 2 [] = Raised AttributeError []"
proof -
  let ?op = "\<lparr>fname = ''trace'', stateList = [State {''(at a)'', ''(on b c)''}, State {''(at a)''}],
            propSet = {}\<rparr>"
  have h2: "stateList ?op \<noteq> []" by simp
  have h3: "int (length (stateList ?op)) \<le> 2 + 1" by simp
  show ?thesis
    using patchWithFFOutput_sentinel[OF example_parse h2 h3, where cwa = "makeCWAExplicit negated"
        and initFileMgr = recorder and m = "[]"]
    by blast
qed

end
